theory Spec2Isabelle
  imports Main
begin

section \<open>The generated plugin registrant of the Windows runner\<close>

text \<open>
  Source: \<^verbatim>\<open>digi_lib_app/windows/flutter/generated_plugin_registrant.cc\<close>.
  The file defines one function,
  \<^verbatim>\<open>void RegisterPlugins(flutter::PluginRegistry* registry)\<close>, whose body is ten
  statements of the shape
  \<^verbatim>\<open>F(registry->GetRegistrarForPlugin("N"));\<close>.
  Everything the function touches is external: the registry object behind the pointer
  and the ten registration entry points declared by the included plugin headers.
\<close>

subsection \<open>Pointers and undefined behaviour\<close>

text \<open>
  A pointer is an address, \<open>nullptr\<close> is address 0. Both the registry argument
  (\<^verbatim>\<open>flutter::PluginRegistry*\<close>) and the registrar handles
  (\<^verbatim>\<open>FlutterDesktopPluginRegistrarRef\<close>) are pointers.
  Calling a member function through a null pointer is undefined behaviour in C++; the
  model makes it the value \<open>Inl NullDereference\<close>.
\<close>

type_synonym address = nat

definition nullptr :: address where
  "nullptr = 0"

datatype fault = NullDereference

definition bind_fault :: "fault + 'a \<Rightarrow> ('a \<Rightarrow> fault + 'b) \<Rightarrow> fault + 'b" where
  "bind_fault m k = (case m of Inl e \<Rightarrow> Inl e | Inr x \<Rightarrow> k x)"

subsection \<open>The external entry points\<close>

text \<open>
  The ten functions called by the file, under their C identifiers. Each is declared in
  one of the headers included at lines 9 to 18.
\<close>

datatype plugin_entry =
    AutoUpdaterPluginRegisterWithRegistrar
  | BatteryPlusWindowsPluginRegisterWithRegistrar
  | ConnectivityPlusWindowsPluginRegisterWithRegistrar
  | DesktopDropPluginRegisterWithRegistrar
  | FlutterSecureStorageWindowsPluginRegisterWithRegistrar
  | HotkeyManagerWindowsPluginCApiRegisterWithRegistrar
  | ScreenRetrieverPluginRegisterWithRegistrar
  | SystemTrayPluginRegisterWithRegistrar
  | UrlLauncherWindowsRegisterWithRegistrar
  | WindowManagerPluginRegisterWithRegistrar

text \<open>The identifier of an entry point, as a string.\<close>

fun symbol :: "plugin_entry \<Rightarrow> string" where
  "symbol AutoUpdaterPluginRegisterWithRegistrar = ''AutoUpdaterPluginRegisterWithRegistrar''"
| "symbol BatteryPlusWindowsPluginRegisterWithRegistrar =
     ''BatteryPlusWindowsPluginRegisterWithRegistrar''"
| "symbol ConnectivityPlusWindowsPluginRegisterWithRegistrar =
     ''ConnectivityPlusWindowsPluginRegisterWithRegistrar''"
| "symbol DesktopDropPluginRegisterWithRegistrar = ''DesktopDropPluginRegisterWithRegistrar''"
| "symbol FlutterSecureStorageWindowsPluginRegisterWithRegistrar =
     ''FlutterSecureStorageWindowsPluginRegisterWithRegistrar''"
| "symbol HotkeyManagerWindowsPluginCApiRegisterWithRegistrar =
     ''HotkeyManagerWindowsPluginCApiRegisterWithRegistrar''"
| "symbol ScreenRetrieverPluginRegisterWithRegistrar =
     ''ScreenRetrieverPluginRegisterWithRegistrar''"
| "symbol SystemTrayPluginRegisterWithRegistrar = ''SystemTrayPluginRegisterWithRegistrar''"
| "symbol UrlLauncherWindowsRegisterWithRegistrar = ''UrlLauncherWindowsRegisterWithRegistrar''"
| "symbol WindowManagerPluginRegisterWithRegistrar = ''WindowManagerPluginRegisterWithRegistrar''"

subsection \<open>The host\<close>

text \<open>
  The host is a parameter. Its state \<open>'h\<close> is whatever the framework and the plugin
  libraries own. \<open>GetRegistrarForPlugin H p n h\<close> is the virtual member function of the
  registry object at address \<open>p\<close>, called with the name \<open>n\<close> in host state \<open>h\<close>: it
  returns a registrar handle (any address, \<open>nullptr\<close> included) and the next host state.
  \<open>RegisterWithRegistrar H f r h\<close> is the call of entry point \<open>f\<close> with the handle
  \<open>r\<close>; the entry points return \<^verbatim>\<open>void\<close>, so all they yield is the next host state.
  In this first model every external call returns to its caller. The second model,
  further down, is the same function over a host whose calls may also throw or never
  return; \<open>RegisterPlugins_ext_returning\<close> shows that the first model is the second one
  on the hosts whose calls all return.
\<close>

record 'h host =
  GetRegistrarForPlugin :: "address \<Rightarrow> string \<Rightarrow> 'h \<Rightarrow> address \<times> 'h"
  RegisterWithRegistrar :: "plugin_entry \<Rightarrow> address \<Rightarrow> 'h \<Rightarrow> 'h"

text \<open>
  What an observer sees of a run: the calls that cross the boundary, in order.
  \<open>Looked_up p n r\<close> is a call of \<^verbatim>\<open>GetRegistrarForPlugin(n)\<close> on the object at
  \<open>p\<close> that returned \<open>r\<close>; \<open>Invoked f r\<close> is a call of entry point \<open>f\<close> with
  argument \<open>r\<close>.
\<close>

datatype event =
    Looked_up address string address
  | Invoked plugin_entry address

text \<open>
  The world is the host state and the calls made so far. The record is extensible: any
  further state (globals of the program, say) sits in its \<open>more\<close> part.
\<close>

record 'h world =
  hstate :: 'h
  trace :: "event list"

subsection \<open>The function\<close>

text \<open>\<^verbatim>\<open>registry->GetRegistrarForPlugin(name)\<close>: dereference, then the virtual call.\<close>

definition get_registrar ::
  "'h host \<Rightarrow> address \<Rightarrow> string \<Rightarrow> ('h, 'z) world_scheme
     \<Rightarrow> fault + (address \<times> ('h, 'z) world_scheme)" where
  "get_registrar H registry name w =
     (if registry = nullptr then Inl NullDereference
      else
        let (r, h) = GetRegistrarForPlugin H registry name (hstate w)
        in Inr (r, w\<lparr>hstate := h, trace := trace w @ [Looked_up registry name r]\<rparr>))"

text \<open>\<^verbatim>\<open>f(r)\<close> for an entry point \<open>f\<close>.\<close>

definition invoke ::
  "'h host \<Rightarrow> plugin_entry \<Rightarrow> address \<Rightarrow> ('h, 'z) world_scheme \<Rightarrow> ('h, 'z) world_scheme" where
  "invoke H f r w =
     w\<lparr>hstate := RegisterWithRegistrar H f r (hstate w), trace := trace w @ [Invoked f r]\<rparr>"

text \<open>
  One statement \<^verbatim>\<open>f(registry->GetRegistrarForPlugin(name));\<close>: the argument is
  evaluated first, then the call is made with its value.
\<close>

definition call_with_registrar ::
  "'h host \<Rightarrow> address \<Rightarrow> plugin_entry \<Rightarrow> string \<Rightarrow> ('h, 'z) world_scheme
     \<Rightarrow> fault + ('h, 'z) world_scheme" where
  "call_with_registrar H registry f name w =
     bind_fault (get_registrar H registry name w) (\<lambda>(r, w'). Inr (invoke H f r w'))"

text \<open>The body of \<^verbatim>\<open>RegisterPlugins\<close>, statement by statement (lines 21 to 40).\<close>

definition RegisterPlugins ::
  "'h host \<Rightarrow> address \<Rightarrow> ('h, 'z) world_scheme \<Rightarrow> fault + ('h, 'z) world_scheme" where
  "RegisterPlugins H registry w0 =
     bind_fault (call_with_registrar H registry
       AutoUpdaterPluginRegisterWithRegistrar ''AutoUpdaterPlugin'' w0) (\<lambda>w1.
     bind_fault (call_with_registrar H registry
       BatteryPlusWindowsPluginRegisterWithRegistrar ''BatteryPlusWindowsPlugin'' w1) (\<lambda>w2.
     bind_fault (call_with_registrar H registry
       ConnectivityPlusWindowsPluginRegisterWithRegistrar ''ConnectivityPlusWindowsPlugin'' w2) (\<lambda>w3.
     bind_fault (call_with_registrar H registry
       DesktopDropPluginRegisterWithRegistrar ''DesktopDropPlugin'' w3) (\<lambda>w4.
     bind_fault (call_with_registrar H registry
       FlutterSecureStorageWindowsPluginRegisterWithRegistrar
         ''FlutterSecureStorageWindowsPlugin'' w4) (\<lambda>w5.
     bind_fault (call_with_registrar H registry
       HotkeyManagerWindowsPluginCApiRegisterWithRegistrar ''HotkeyManagerWindowsPluginCApi'' w5) (\<lambda>w6.
     bind_fault (call_with_registrar H registry
       ScreenRetrieverPluginRegisterWithRegistrar ''ScreenRetrieverPlugin'' w6) (\<lambda>w7.
     bind_fault (call_with_registrar H registry
       SystemTrayPluginRegisterWithRegistrar ''SystemTrayPlugin'' w7) (\<lambda>w8.
     bind_fault (call_with_registrar H registry
       UrlLauncherWindowsRegisterWithRegistrar ''UrlLauncherWindows'' w8) (\<lambda>w9.
     call_with_registrar H registry
       WindowManagerPluginRegisterWithRegistrar ''WindowManagerPlugin'' w9)))))))))"

subsection \<open>Reading a trace\<close>

text \<open>The entry points called, with their arguments, in order.\<close>

fun invoked :: "event list \<Rightarrow> (plugin_entry \<times> address) list" where
  "invoked [] = []"
| "invoked (Invoked f r # es) = (f, r) # invoked es"
| "invoked (Looked_up p n r # es) = invoked es"

text \<open>The lookups made: receiver object, name, handle returned.\<close>

fun looked_up :: "event list \<Rightarrow> (address \<times> string \<times> address) list" where
  "looked_up [] = []"
| "looked_up (Looked_up p n r # es) = (p, n, r) # looked_up es"
| "looked_up (Invoked f r # es) = looked_up es"

text \<open>
  A trace made of statements \<^verbatim>\<open>N##RegisterWithRegistrar(p->GetRegistrarForPlugin("N"))\<close>
  only: a lookup of \<open>N\<close>, then at once the call of the entry point whose identifier is
  \<open>N\<close> followed by \<open>RegisterWithRegistrar\<close>, with the handle the lookup returned.
  The result is the number of such statements.
\<close>

fun statements :: "event list \<Rightarrow> nat option" where
  "statements [] = Some 0"
| "statements (Looked_up p n r # Invoked f r' # es) =
     (if r' = r \<and> symbol f = n @ ''RegisterWithRegistrar''
      then map_option Suc (statements es) else None)"
| "statements es = None"

text \<open>The host state after the external calls of a trace, made in order from \<open>h\<close>.\<close>

fun replay :: "'h host \<Rightarrow> event list \<Rightarrow> 'h \<Rightarrow> 'h" where
  "replay H [] h = h"
| "replay H (Looked_up p n r # es) h = replay H es (snd (GetRegistrarForPlugin H p n h))"
| "replay H (Invoked f r # es) h = replay H es (RegisterWithRegistrar H f r h)"

text \<open>Every handle a trace records for a lookup is the one the host returned there.\<close>

fun faithful :: "'h host \<Rightarrow> event list \<Rightarrow> 'h \<Rightarrow> bool" where
  "faithful H [] h = True"
| "faithful H (Looked_up p n r # es) h =
     (r = fst (GetRegistrarForPlugin H p n h) \<and>
      faithful H es (snd (GetRegistrarForPlugin H p n h)))"
| "faithful H (Invoked f r # es) h = faithful H es (RegisterWithRegistrar H f r h)"

text \<open>
  The statements of a trace, read from its front: each lookup that is followed at once by
  a call gives the entry point called, the name looked up, the handle the lookup returned
  and the handle the call received.
\<close>

fun registrations :: "event list \<Rightarrow> (plugin_entry \<times> string \<times> address \<times> address) list" where
  "registrations (Looked_up p n r # Invoked f r' # es) = (f, n, r, r') # registrations es"
| "registrations es = []"

subsection \<open>The body as a list of statements\<close>

text \<open>
  For the proofs, the ten statements as data: entry point and name, in source order.
  \<open>run_plan\<close> executes such a list one statement after the other, and
  \<open>RegisterPlugins_plan\<close> below shows that the body of \<^verbatim>\<open>RegisterPlugins\<close> is
  \<open>run_plan\<close> of \<open>plan\<close>.
\<close>

definition plan :: "(plugin_entry \<times> string) list" where
  "plan =
    [(AutoUpdaterPluginRegisterWithRegistrar, ''AutoUpdaterPlugin''),
     (BatteryPlusWindowsPluginRegisterWithRegistrar, ''BatteryPlusWindowsPlugin''),
     (ConnectivityPlusWindowsPluginRegisterWithRegistrar, ''ConnectivityPlusWindowsPlugin''),
     (DesktopDropPluginRegisterWithRegistrar, ''DesktopDropPlugin''),
     (FlutterSecureStorageWindowsPluginRegisterWithRegistrar,
        ''FlutterSecureStorageWindowsPlugin''),
     (HotkeyManagerWindowsPluginCApiRegisterWithRegistrar, ''HotkeyManagerWindowsPluginCApi''),
     (ScreenRetrieverPluginRegisterWithRegistrar, ''ScreenRetrieverPlugin''),
     (SystemTrayPluginRegisterWithRegistrar, ''SystemTrayPlugin''),
     (UrlLauncherWindowsRegisterWithRegistrar, ''UrlLauncherWindows''),
     (WindowManagerPluginRegisterWithRegistrar, ''WindowManagerPlugin'')]"

fun run_plan ::
  "'h host \<Rightarrow> address \<Rightarrow> (plugin_entry \<times> string) list \<Rightarrow> ('h, 'z) world_scheme
     \<Rightarrow> fault + ('h, 'z) world_scheme" where
  "run_plan H registry [] w = Inr w"
| "run_plan H registry ((f, n) # cs) w =
     bind_fault (call_with_registrar H registry f n w) (\<lambda>w'. run_plan H registry cs w')"

text \<open>The calls a list of statements makes on a non-null registry, from host state \<open>h\<close>.\<close>

fun script :: "'h host \<Rightarrow> address \<Rightarrow> (plugin_entry \<times> string) list \<Rightarrow> 'h \<Rightarrow> event list" where
  "script H p [] h = []"
| "script H p ((f, n) # cs) h =
     Looked_up p n (fst (GetRegistrarForPlugin H p n h)) #
     Invoked f (fst (GetRegistrarForPlugin H p n h)) #
     script H p cs
       (RegisterWithRegistrar H f (fst (GetRegistrarForPlugin H p n h))
          (snd (GetRegistrarForPlugin H p n h)))"

section \<open>The same function over a host whose calls may not return\<close>

text \<open>
  The file has no \<^verbatim>\<open>try\<close>, \<^verbatim>\<open>catch\<close> or \<^verbatim>\<open>throw\<close>. A C++ call that throws
  therefore ends \<^verbatim>\<open>RegisterPlugins\<close> at that call, the exception going on to the
  caller; a call that never returns keeps \<^verbatim>\<open>RegisterPlugins\<close> inside it for ever.
  In this model an external call answers with a \<open>reply\<close>: it returns a value, it throws, or
  it hangs.
\<close>

datatype 'a reply = Returns 'a | Throws | Hangs

fun normal :: "'a reply \<Rightarrow> bool" where
  "normal (Returns x) = True"
| "normal Throws = False"
| "normal Hangs = False"

text \<open>
  The host, as before, with a reply in place of a result. The host state that comes with
  a reply is the state the call left behind, also when it threw.
\<close>

record 'h ext_host =
  GetRegistrarForPlugin_ext :: "address \<Rightarrow> string \<Rightarrow> 'h \<Rightarrow> address reply \<times> 'h"
  RegisterWithRegistrar_ext :: "plugin_entry \<Rightarrow> address \<Rightarrow> 'h \<Rightarrow> unit reply \<times> 'h"

text \<open>
  The calls made, each with the reply it got: \<open>Lookup p n rep\<close> is
  \<^verbatim>\<open>GetRegistrarForPlugin(n)\<close> on the object at \<open>p\<close>, \<open>Entry f r rep\<close> is entry point
  \<open>f\<close> called with \<open>r\<close>.
\<close>

datatype call =
    Lookup address string "address reply"
  | Entry plugin_entry address "unit reply"

record 'h run =
  host_state :: 'h
  calls :: "call list"

text \<open>
  How a run ends: in undefined behaviour, by returning to the caller, by an exception
  that leaves the function, or not at all. The last three carry the world at that point.
\<close>

datatype 'w outcome = Undefined | Completed 'w | Unwound 'w | Stuck 'w

text \<open>Sequencing: the next statement runs only if the one before returned.\<close>

definition then_do :: "'w outcome \<Rightarrow> ('w \<Rightarrow> 'w outcome) \<Rightarrow> 'w outcome" where
  "then_do m k = (case m of Completed w \<Rightarrow> k w | _ \<Rightarrow> m)"

text \<open>\<^verbatim>\<open>f(r)\<close> for an entry point \<open>f\<close>.\<close>

definition invoke_ext ::
  "'h ext_host \<Rightarrow> plugin_entry \<Rightarrow> address \<Rightarrow> ('h, 'z) run_scheme
     \<Rightarrow> ('h, 'z) run_scheme outcome" where
  "invoke_ext H f r w =
     (let (rep, h) = RegisterWithRegistrar_ext H f r (host_state w);
          w' = w\<lparr>host_state := h, calls := calls w @ [Entry f r rep]\<rparr>
      in case rep of Returns u \<Rightarrow> Completed w' | Throws \<Rightarrow> Unwound w' | Hangs \<Rightarrow> Stuck w')"

text \<open>
  One statement \<^verbatim>\<open>f(registry->GetRegistrarForPlugin(name));\<close>: dereference, the
  virtual call, and the call of \<open>f\<close> with its value if there is one.
\<close>

definition call_with_registrar_ext ::
  "'h ext_host \<Rightarrow> address \<Rightarrow> plugin_entry \<Rightarrow> string \<Rightarrow> ('h, 'z) run_scheme
     \<Rightarrow> ('h, 'z) run_scheme outcome" where
  "call_with_registrar_ext H registry f name w =
     (if registry = nullptr then Undefined
      else
        let (rep, h) = GetRegistrarForPlugin_ext H registry name (host_state w);
            w' = w\<lparr>host_state := h, calls := calls w @ [Lookup registry name rep]\<rparr>
        in case rep of Returns r \<Rightarrow> invoke_ext H f r w' | Throws \<Rightarrow> Unwound w' | Hangs \<Rightarrow> Stuck w')"

text \<open>The body of \<^verbatim>\<open>RegisterPlugins\<close> again, statement by statement (lines 21 to 40).\<close>

definition RegisterPlugins_ext ::
  "'h ext_host \<Rightarrow> address \<Rightarrow> ('h, 'z) run_scheme \<Rightarrow> ('h, 'z) run_scheme outcome" where
  "RegisterPlugins_ext H registry w0 =
     then_do (call_with_registrar_ext H registry
       AutoUpdaterPluginRegisterWithRegistrar ''AutoUpdaterPlugin'' w0) (\<lambda>w1.
     then_do (call_with_registrar_ext H registry
       BatteryPlusWindowsPluginRegisterWithRegistrar ''BatteryPlusWindowsPlugin'' w1) (\<lambda>w2.
     then_do (call_with_registrar_ext H registry
       ConnectivityPlusWindowsPluginRegisterWithRegistrar ''ConnectivityPlusWindowsPlugin'' w2) (\<lambda>w3.
     then_do (call_with_registrar_ext H registry
       DesktopDropPluginRegisterWithRegistrar ''DesktopDropPlugin'' w3) (\<lambda>w4.
     then_do (call_with_registrar_ext H registry
       FlutterSecureStorageWindowsPluginRegisterWithRegistrar
         ''FlutterSecureStorageWindowsPlugin'' w4) (\<lambda>w5.
     then_do (call_with_registrar_ext H registry
       HotkeyManagerWindowsPluginCApiRegisterWithRegistrar ''HotkeyManagerWindowsPluginCApi'' w5) (\<lambda>w6.
     then_do (call_with_registrar_ext H registry
       ScreenRetrieverPluginRegisterWithRegistrar ''ScreenRetrieverPlugin'' w6) (\<lambda>w7.
     then_do (call_with_registrar_ext H registry
       SystemTrayPluginRegisterWithRegistrar ''SystemTrayPlugin'' w7) (\<lambda>w8.
     then_do (call_with_registrar_ext H registry
       UrlLauncherWindowsRegisterWithRegistrar ''UrlLauncherWindows'' w8) (\<lambda>w9.
     call_with_registrar_ext H registry
       WindowManagerPluginRegisterWithRegistrar ''WindowManagerPlugin'' w9)))))))))"

subsection \<open>Reading the calls of a run\<close>

text \<open>The call returned to its caller.\<close>

fun returned :: "call \<Rightarrow> bool" where
  "returned (Lookup p n rep) = normal rep"
| "returned (Entry f r rep) = normal rep"

text \<open>How a run ends whose last call is this one.\<close>

fun verdict :: "call \<Rightarrow> 'w \<Rightarrow> 'w outcome" where
  "verdict (Lookup p n (Returns r)) w = Completed w"
| "verdict (Lookup p n Throws) w = Unwound w"
| "verdict (Lookup p n Hangs) w = Stuck w"
| "verdict (Entry f r (Returns u)) w = Completed w"
| "verdict (Entry f r Throws) w = Unwound w"
| "verdict (Entry f r Hangs) w = Stuck w"

text \<open>
  The end of a run as its calls decide it: the first call that did not return ends the
  run, by its exception or by hanging; if all returned the run returns.
\<close>

fun outcome_of :: "call list \<Rightarrow> 'w \<Rightarrow> 'w outcome" where
  "outcome_of [] w = Completed w"
| "outcome_of (e # es) w = (if returned e then outcome_of es w else verdict e w)"

text \<open>The entry points called, with their arguments, whether or not the call returned.\<close>

fun entered :: "call list \<Rightarrow> (plugin_entry \<times> address) list" where
  "entered [] = []"
| "entered (Entry f r rep # es) = (f, r) # entered es"
| "entered (Lookup p n rep # es) = entered es"

text \<open>The host state after the calls, made in order from \<open>h\<close>.\<close>

fun replay_ext :: "'h ext_host \<Rightarrow> call list \<Rightarrow> 'h \<Rightarrow> 'h" where
  "replay_ext H [] h = h"
| "replay_ext H (Lookup p n rep # es) h =
     replay_ext H es (snd (GetRegistrarForPlugin_ext H p n h))"
| "replay_ext H (Entry f r rep # es) h =
     replay_ext H es (snd (RegisterWithRegistrar_ext H f r h))"

text \<open>Every reply recorded is the one the host gave there.\<close>

fun faithful_ext :: "'h ext_host \<Rightarrow> call list \<Rightarrow> 'h \<Rightarrow> bool" where
  "faithful_ext H [] h = True"
| "faithful_ext H (Lookup p n rep # es) h =
     (rep = fst (GetRegistrarForPlugin_ext H p n h) \<and>
      faithful_ext H es (snd (GetRegistrarForPlugin_ext H p n h)))"
| "faithful_ext H (Entry f r rep # es) h =
     (rep = fst (RegisterWithRegistrar_ext H f r h) \<and>
      faithful_ext H es (snd (RegisterWithRegistrar_ext H f r h)))"


subsection \<open>The body as a list of statements, again\<close>

fun run_plan_ext ::
  "'h ext_host \<Rightarrow> address \<Rightarrow> (plugin_entry \<times> string) list \<Rightarrow> ('h, 'z) run_scheme
     \<Rightarrow> ('h, 'z) run_scheme outcome" where
  "run_plan_ext H registry [] w = Completed w"
| "run_plan_ext H registry ((f, n) # cs) w =
     then_do (call_with_registrar_ext H registry f n w) (\<lambda>w'. run_plan_ext H registry cs w')"

text \<open>The calls a list of statements makes on a non-null registry, from host state \<open>h\<close>.\<close>

fun script_ext ::
  "'h ext_host \<Rightarrow> address \<Rightarrow> (plugin_entry \<times> string) list \<Rightarrow> 'h \<Rightarrow> call list" where
  "script_ext H p [] h = []"
| "script_ext H p ((f, n) # cs) h =
     (case GetRegistrarForPlugin_ext H p n h of
        (Returns r, h1) \<Rightarrow>
          Lookup p n (Returns r) #
          (case RegisterWithRegistrar_ext H f r h1 of
             (Returns u, h2) \<Rightarrow> Entry f r (Returns u) # script_ext H p cs h2
           | (Throws, h2) \<Rightarrow> [Entry f r Throws]
           | (Hangs, h2) \<Rightarrow> [Entry f r Hangs])
      | (Throws, h1) \<Rightarrow> [Lookup p n Throws]
      | (Hangs, h1) \<Rightarrow> [Lookup p n Hangs])"

subsection \<open>From the first model to the second\<close>

text \<open>A host of the first model, as a host whose every call returns.\<close>

definition returning :: "'h host \<Rightarrow> 'h ext_host" where
  "returning H =
     \<lparr>GetRegistrarForPlugin_ext =
        (\<lambda>p n h. (Returns (fst (GetRegistrarForPlugin H p n h)),
                  snd (GetRegistrarForPlugin H p n h))),
      RegisterWithRegistrar_ext = (\<lambda>f r h. (Returns (), RegisterWithRegistrar H f r h))\<rparr>"

fun as_call :: "event \<Rightarrow> call" where
  "as_call (Looked_up p n r) = Lookup p n (Returns r)"
| "as_call (Invoked f r) = Entry f r (Returns ())"

definition as_run :: "'h world \<Rightarrow> 'h run" where
  "as_run w = \<lparr>host_state = hstate w, calls = map as_call (trace w)\<rparr>"

subsection \<open>Some hosts\<close>

text \<open>
  A host that hands out a non-null handle for every name and counts in its state.
\<close>

definition demo_host :: "nat host" where
  "demo_host =
     \<lparr>GetRegistrarForPlugin = (\<lambda>p n h. (Suc (length n), Suc h)),
      RegisterWithRegistrar = (\<lambda>f r h. h + r)\<rparr>"

definition fresh :: "nat world" where
  "fresh = \<lparr>hstate = 0, trace = []\<rparr>"

text \<open>A host whose registry returns \<open>nullptr\<close> for every name.\<close>

definition null_host :: "unit host" where
  "null_host =
     \<lparr>GetRegistrarForPlugin = (\<lambda>p n h. (nullptr, h)),
      RegisterWithRegistrar = (\<lambda>f r h. h)\<rparr>"

text \<open>A world with state of the program's own beside the host's.\<close>

record 'h app_world = "'h world" +
  globals :: "int list"

definition app_fresh :: "nat app_world" where
  "app_fresh = \<lparr>hstate = 0, trace = [], globals = [7, 11]\<rparr>"

text \<open>
  A registry whose lookup throws for the third name, a host whose second plugin throws
  when registered, and a registry whose lookup never returns for the second name. The
  host state counts the calls that returned.
\<close>

definition throwing_registry :: "nat ext_host" where
  "throwing_registry =
     \<lparr>GetRegistrarForPlugin_ext =
        (\<lambda>p n h. if n = ''ConnectivityPlusWindowsPlugin'' then (Throws, h)
                  else (Returns 7, Suc h)),
      RegisterWithRegistrar_ext = (\<lambda>f r h. (Returns (), Suc h))\<rparr>"

definition throwing_plugin :: "nat ext_host" where
  "throwing_plugin =
     \<lparr>GetRegistrarForPlugin_ext = (\<lambda>p n h. (Returns 7, Suc h)),
      RegisterWithRegistrar_ext =
        (\<lambda>f r h. if f = BatteryPlusWindowsPluginRegisterWithRegistrar then (Throws, h)
                  else (Returns (), Suc h))\<rparr>"


definition start :: "nat run" where
  "start = \<lparr>host_state = 0, calls = []\<rparr>"

section \<open>Properties\<close>

subsection \<open>One statement\<close>

lemma call_with_registrar_null:
  "call_with_registrar H nullptr f name w = Inl NullDereference"
  by (simp add: call_with_registrar_def get_registrar_def bind_fault_def)

lemma call_with_registrar_run:
  assumes "registry \<noteq> nullptr"
  shows "call_with_registrar H registry f name w =
    Inr (w\<lparr>hstate := RegisterWithRegistrar H f
                (fst (GetRegistrarForPlugin H registry name (hstate w)))
                (snd (GetRegistrarForPlugin H registry name (hstate w))),
           trace := trace w @
             [Looked_up registry name (fst (GetRegistrarForPlugin H registry name (hstate w))),
              Invoked f (fst (GetRegistrarForPlugin H registry name (hstate w)))]\<rparr>)"
  using assms
  by (simp add: call_with_registrar_def get_registrar_def bind_fault_def invoke_def
      split_def Let_def)

subsection \<open>The body is the list of its statements\<close>

lemma bind_fault_Inr: "bind_fault m Inr = m"
  by (simp add: bind_fault_def split: sum.splits)

lemma run_plan_Nil_fun: "run_plan H registry [] = Inr"
  by (rule ext) simp

lemma run_plan_Cons_fun:
  "run_plan H registry ((f, n) # cs) =
     (\<lambda>w. bind_fault (call_with_registrar H registry f n w) (run_plan H registry cs))"
  by (rule ext) simp

lemma RegisterPlugins_plan: "RegisterPlugins H registry w = run_plan H registry plan w"
  unfolding RegisterPlugins_def plan_def run_plan_Cons_fun run_plan_Nil_fun bind_fault_Inr
  by (rule refl)

lemma run_plan_script:
  "registry \<noteq> nullptr \<Longrightarrow>
   run_plan H registry cs w =
     Inr (w\<lparr>hstate := replay H (script H registry cs (hstate w)) (hstate w),
            trace := trace w @ script H registry cs (hstate w)\<rparr>)"
proof (induction cs arbitrary: w)
  case Nil
  then show ?case by simp
next
  case (Cons c cs)
  obtain f n where c: "c = (f, n)" by (cases c)
  show ?case
    using Cons.prems
    by (simp add: c call_with_registrar_run bind_fault_def Cons.IH)
qed

lemma RegisterPlugins_script:
  "registry \<noteq> nullptr \<Longrightarrow>
   RegisterPlugins H registry w =
     Inr (w\<lparr>hstate := replay H (script H registry plan (hstate w)) (hstate w),
            trace := trace w @ script H registry plan (hstate w)\<rparr>)"
  by (simp add: RegisterPlugins_plan run_plan_script)

lemma RegisterPlugins_null: "RegisterPlugins H nullptr w = Inl NullDereference"
  by (simp add: RegisterPlugins_def call_with_registrar_null bind_fault_def)

subsection \<open>What a script looks like\<close>

lemma invoked_script: "map fst (invoked (script H p cs h)) = map fst cs"
  by (induction cs arbitrary: h) auto

lemma looked_up_script_names: "map (fst \<circ> snd) (looked_up (script H p cs h)) = map snd cs"
  by (induction cs arbitrary: h) auto

lemma looked_up_script_receivers:
  "map fst (looked_up (script H p cs h)) = replicate (length cs) p"
  by (induction cs arbitrary: h) auto

lemma length_script: "length (script H p cs h) = 2 * length cs"
  by (induction cs arbitrary: h) auto

lemma handles_script:
  "map snd (invoked (script H p cs h)) = map (snd \<circ> snd) (looked_up (script H p cs h))"
  by (induction cs arbitrary: h) auto

lemma faithful_script: "faithful H (script H p cs h) h"
  by (induction cs arbitrary: h) auto

lemma statements_script:
  "list_all (\<lambda>(f, n). symbol f = n @ ''RegisterWithRegistrar'') cs \<Longrightarrow>
   statements (script H p cs h) = Some (length cs)"
  by (induction cs arbitrary: h) auto

lemma nonnull_script:
  "(\<And>n h. fst (GetRegistrarForPlugin H p n h) \<noteq> nullptr) \<Longrightarrow>
   list_all (\<lambda>(f, r). r \<noteq> nullptr) (invoked (script H p cs h))"
  by (induction cs arbitrary: h) auto

lemma plan_symbols: "list_all (\<lambda>(f, n). symbol f = n @ ''RegisterWithRegistrar'') plan"
  by (simp add: plan_def)

lemma length_plan: "length plan = 10"
  by (simp add: plan_def)

lemma length_invoked_plan: "length (invoked (script H p plan h)) = 10"
proof -
  have "length (map fst (invoked (script H p plan h))) = 10"
    unfolding invoked_script by (simp add: length_plan)
  then show ?thesis by simp
qed

lemma length_looked_up_plan: "length (looked_up (script H p plan h)) = 10"
proof -
  have "length (map fst (looked_up (script H p plan h))) = 10"
    unfolding looked_up_script_receivers by (simp add: length_plan)
  then show ?thesis by simp
qed

lemma registrations_script_names:
  "map (\<lambda>(f, n, r, r'). (f, n)) (registrations (script H p cs h)) = cs"
  by (induction cs arbitrary: h) auto

lemma registrations_script_handles:
  "list_all (\<lambda>(f, n, r, r'). r' = r) (registrations (script H p cs h))"
  by (induction cs arbitrary: h) auto

subsection \<open>The second model\<close>

lemma then_do_Completed: "then_do m Completed = m"
  by (cases m) (simp_all add: then_do_def)

lemma run_plan_ext_Nil_fun: "run_plan_ext H registry [] = Completed"
  by (rule ext) simp

lemma run_plan_ext_Cons_fun:
  "run_plan_ext H registry ((f, n) # cs) =
     (\<lambda>w. then_do (call_with_registrar_ext H registry f n w) (run_plan_ext H registry cs))"
  by (rule ext) simp

lemma RegisterPlugins_ext_plan:
  "RegisterPlugins_ext H registry w = run_plan_ext H registry plan w"
  unfolding RegisterPlugins_ext_def plan_def run_plan_ext_Cons_fun run_plan_ext_Nil_fun
    then_do_Completed
  by (rule refl)

lemma run_plan_ext_script:
  "registry \<noteq> nullptr \<Longrightarrow>
   run_plan_ext H registry cs w =
     outcome_of (script_ext H registry cs (host_state w))
       (w\<lparr>host_state := replay_ext H (script_ext H registry cs (host_state w)) (host_state w),
          calls := calls w @ script_ext H registry cs (host_state w)\<rparr>)"
proof (induction cs arbitrary: w)
  case Nil
  then show ?case by simp
next
  case (Cons c cs)
  obtain f n where c: "c = (f, n)" by (cases c)
  obtain rep h1 where l: "GetRegistrarForPlugin_ext H registry n (host_state w) = (rep, h1)"
    by (cases "GetRegistrarForPlugin_ext H registry n (host_state w)")
  show ?case
  proof (cases rep)
    case (Returns r)
    obtain rep' h2 where e: "RegisterWithRegistrar_ext H f r h1 = (rep', h2)"
      by (cases "RegisterWithRegistrar_ext H f r h1")
    show ?thesis
      using Cons.prems
      by (cases rep')
        (simp_all add: c l e Returns call_with_registrar_ext_def invoke_ext_def then_do_def
          Cons.IH)
  next
    case Throws
    then show ?thesis
      using Cons.prems by (simp add: c l call_with_registrar_ext_def then_do_def)
  next
    case Hangs
    then show ?thesis
      using Cons.prems by (simp add: c l call_with_registrar_ext_def then_do_def)
  qed
qed


lemma call_with_registrar_ext_null:
  "call_with_registrar_ext H nullptr f name w = Undefined"
  by (simp add: call_with_registrar_ext_def)

lemma RegisterPlugins_ext_null: "RegisterPlugins_ext H nullptr w = Undefined"
  by (simp add: RegisterPlugins_ext_def call_with_registrar_ext_null then_do_def)

lemma RegisterPlugins_ext_script:
  "registry \<noteq> nullptr \<Longrightarrow>
   RegisterPlugins_ext H registry w =
     outcome_of (script_ext H registry plan (host_state w))
       (w\<lparr>host_state := replay_ext H (script_ext H registry plan (host_state w)) (host_state w),
          calls := calls w @ script_ext H registry plan (host_state w)\<rparr>)"
  by (simp add: RegisterPlugins_ext_plan run_plan_ext_script)

lemma outcome_of_returned: "list_all returned es \<Longrightarrow> outcome_of es w = Completed w"
  by (induction es) auto

lemma faithful_ext_script: "faithful_ext H (script_ext H p cs h) h"
  by (induction cs arbitrary: h) (auto split: prod.splits reply.splits)



lemma butlast_script_ext: "list_all returned (butlast (script_ext H p cs h))"
  by (induction cs arbitrary: h) (auto split: prod.splits reply.splits)

lemma entered_script_ext_take:
  "\<exists>k. map fst (entered (script_ext H p cs h)) = take k (map fst cs)"
proof (induction cs arbitrary: h)
  case Nil
  then show ?case by simp
next
  case (Cons c cs)
  obtain f n where c: "c = (f, n)" by (cases c)
  obtain rep h1 where l: "GetRegistrarForPlugin_ext H p n h = (rep, h1)"
    by (cases "GetRegistrarForPlugin_ext H p n h")
  show ?case
  proof (cases rep)
    case (Returns r)
    obtain rep' h2 where e: "RegisterWithRegistrar_ext H f r h1 = (rep', h2)"
      by (cases "RegisterWithRegistrar_ext H f r h1")
    show ?thesis
    proof (cases rep')
      case (Returns u)
      obtain k where "map fst (entered (script_ext H p cs h2)) = take k (map fst cs)"
        using Cons.IH by blast
      then have "map fst (entered (script_ext H p (c # cs) h)) = take (Suc k) (map fst (c # cs))"
        by (simp add: c l e Returns \<open>rep = Returns r\<close>)
      then show ?thesis by blast
    next
      case Throws
      have "map fst (entered (script_ext H p (c # cs) h)) = take 1 (map fst (c # cs))"
        by (simp add: c l e Throws \<open>rep = Returns r\<close>)
      then show ?thesis by blast
    next
      case Hangs
      have "map fst (entered (script_ext H p (c # cs) h)) = take 1 (map fst (c # cs))"
        by (simp add: c l e Hangs \<open>rep = Returns r\<close>)
      then show ?thesis by blast
    qed
  next
    case Throws
    have "map fst (entered (script_ext H p (c # cs) h)) = take 0 (map fst (c # cs))"
      by (simp add: c l Throws)
    then show ?thesis by blast
  next
    case Hangs
    have "map fst (entered (script_ext H p (c # cs) h)) = take 0 (map fst (c # cs))"
      by (simp add: c l Hangs)
    then show ?thesis by blast
  qed
qed

lemma returned_script_ext:
  "list_all returned (script_ext H p cs h) \<Longrightarrow>
   map fst (entered (script_ext H p cs h)) = map fst cs \<and>
   length (script_ext H p cs h) = 2 * length cs"
  by (induction cs arbitrary: h) (auto split: prod.splits reply.splits)

lemma normal_script_ext:
  assumes "\<And>n h. normal (fst (GetRegistrarForPlugin_ext H p n h))"
    and "\<And>f r h. normal (fst (RegisterWithRegistrar_ext H f r h))"
  shows "list_all returned (script_ext H p cs h)"
proof (induction cs arbitrary: h)
  case Nil
  then show ?case by simp
next
  case (Cons c cs)
  obtain f n where c: "c = (f, n)" by (cases c)
  obtain rep h1 where l: "GetRegistrarForPlugin_ext H p n h = (rep, h1)"
    by (cases "GetRegistrarForPlugin_ext H p n h")
  from assms(1) [of n h] l obtain r where r: "rep = Returns r"
    by (cases rep) simp_all
  obtain rep' h2 where e: "RegisterWithRegistrar_ext H f r h1 = (rep', h2)"
    by (cases "RegisterWithRegistrar_ext H f r h1")
  from assms(2) [of f r h1] e obtain u where u: "rep' = Returns u"
    by (cases rep') simp_all
  show ?case
    by (simp add: c l r e u Cons.IH)
qed


lemma map_fst_plan:
  "map fst plan =
     [AutoUpdaterPluginRegisterWithRegistrar,
      BatteryPlusWindowsPluginRegisterWithRegistrar,
      ConnectivityPlusWindowsPluginRegisterWithRegistrar,
      DesktopDropPluginRegisterWithRegistrar,
      FlutterSecureStorageWindowsPluginRegisterWithRegistrar,
      HotkeyManagerWindowsPluginCApiRegisterWithRegistrar,
      ScreenRetrieverPluginRegisterWithRegistrar,
      SystemTrayPluginRegisterWithRegistrar,
      UrlLauncherWindowsRegisterWithRegistrar,
      WindowManagerPluginRegisterWithRegistrar]"
  by (simp add: plan_def)

lemma returning_normal:
  "normal (fst (GetRegistrarForPlugin_ext (returning H) p n h))"
  "normal (fst (RegisterWithRegistrar_ext (returning H) f r h))"
  by (simp_all add: returning_def)

lemma script_ext_returning:
  "script_ext (returning H) p cs h = map as_call (script H p cs h)"
  by (induction cs arbitrary: h) (auto simp: returning_def)

lemma replay_ext_returning:
  "replay_ext (returning H) (map as_call es) h = replay H es h"
  by (induction H es h rule: replay.induct) (simp_all add: returning_def)

lemma returned_as_call: "list_all returned (map as_call es)"
proof (induction es)
  case Nil
  then show ?case by simp
next
  case (Cons e es)
  then show ?case by (cases e) simp_all
qed

lemma RegisterPlugins_ext_returning:
  "RegisterPlugins_ext (returning H) registry (as_run w) =
     (case RegisterPlugins H registry w of
        Inl e \<Rightarrow> Undefined
      | Inr w' \<Rightarrow> Completed (as_run w'))"
proof (cases "registry = nullptr")
  case True
  then show ?thesis
    by (simp add: RegisterPlugins_ext_null RegisterPlugins_null)
next
  case False
  show ?thesis
    by (simp add: RegisterPlugins_ext_script [OF False] RegisterPlugins_script [OF False]
        script_ext_returning replay_ext_returning outcome_of_returned returned_as_call
        as_run_def)
qed

section \<open>The claims\<close>

text \<open>
  In every statement below \<open>w\<close> is the world before the call, \<open>w'\<close> the world after it,
  and \<open>evs\<close> the calls \<^verbatim>\<open>RegisterPlugins\<close> added to the trace. The host \<open>H\<close> and
  its state are arbitrary, so a statement holds whatever the registry and the plugins do
  when called. A registry is an object: the pointer to it is not null. The conjuncts
  \<open>replay\<close> and \<open>faithful\<close> say that the calls of the trace were made on the host: its
  state afterwards is the one they leave, and what the trace says they returned is what
  the host returned.
\<close>

text \<open>
  Claim C1, as stated: for every registry, \<^verbatim>\<open>RegisterPlugins\<close> makes exactly ten
  registration calls. With a registry whose lookup throws for the third name the
  exception leaves the function there, after two registration calls.
\<close>

theorem RegisterPlugins_ext_leaves_at_throwing_lookup:
  "RegisterPlugins_ext throwing_registry 1 start =
     Unwound \<lparr>host_state = 4,
              calls =
                [Lookup 1 ''AutoUpdaterPlugin'' (Returns 7),
                 Entry AutoUpdaterPluginRegisterWithRegistrar 7 (Returns ()),
                 Lookup 1 ''BatteryPlusWindowsPlugin'' (Returns 7),
                 Entry BatteryPlusWindowsPluginRegisterWithRegistrar 7 (Returns ()),
                 Lookup 1 ''ConnectivityPlusWindowsPlugin'' Throws]\<rparr>"
  by (simp add: RegisterPlugins_ext_def call_with_registrar_ext_def invoke_ext_def then_do_def
      throwing_registry_def start_def nullptr_def)

text \<open>
  Claim C1, amended. For every registry whose lookups return and whose plugins'
  registration functions return, \<^verbatim>\<open>RegisterPlugins\<close> returns after making exactly ten
  registration calls, and each of the ten entry points (the ten values of
  \<open>plugin_entry\<close>) is called exactly once.
\<close>

theorem RegisterPlugins_ext_each_entry_once:
  assumes "registry \<noteq> nullptr"
    and "\<And>n h. normal (fst (GetRegistrarForPlugin_ext H registry n h))"
    and "\<And>f r h. normal (fst (RegisterWithRegistrar_ext H f r h))"
  shows "\<exists>w' evs. RegisterPlugins_ext H registry w = Completed w' \<and>
           calls w' = calls w @ evs \<and>
           host_state w' = replay_ext H evs (host_state w) \<and>
           faithful_ext H evs (host_state w) \<and>
           length (entered evs) = 10 \<and>
           (\<forall>f. count_list (map fst (entered evs)) f = 1)"
proof -
  let ?evs = "script_ext H registry plan (host_state w)"
  let ?w' = "w\<lparr>host_state := replay_ext H ?evs (host_state w), calls := calls w @ ?evs\<rparr>"
  have ret: "list_all returned ?evs"
    using assms(2,3) by (rule normal_script_ext)
  have run: "RegisterPlugins_ext H registry w = Completed ?w'"
    by (simp add: RegisterPlugins_ext_script [OF assms(1)] outcome_of_returned [OF ret])
  have m: "map fst (entered ?evs) = map fst plan"
    using returned_script_ext [OF ret] by simp
  have "length (map fst (entered ?evs)) = 10"
    unfolding m by (simp add: length_plan)
  then have len: "length (entered ?evs) = 10"
    by simp
  have cnt: "count_list (map fst (entered ?evs)) f = 1" for f
    unfolding m map_fst_plan by (cases f) simp_all
  have "calls ?w' = calls w @ ?evs" "host_state ?w' = replay_ext H ?evs (host_state w)"
    by simp_all
  with run len cnt faithful_ext_script [of H registry plan "host_state w"]
  show ?thesis by blast
qed

theorem RegisterPlugins_ext_each_entry_once_witness:
  "(1::nat) \<noteq> nullptr \<and>
   (\<forall>n h. normal (fst (GetRegistrarForPlugin_ext (returning demo_host) 1 n h))) \<and>
   (\<forall>f r h. normal (fst (RegisterWithRegistrar_ext (returning demo_host) f r h))) \<and>
   (\<exists>w' evs. RegisterPlugins_ext (returning demo_host) 1 start = Completed w' \<and>
           calls w' = calls start @ evs \<and>
           host_state w' = replay_ext (returning demo_host) evs (host_state start) \<and>
           faithful_ext (returning demo_host) evs (host_state start) \<and>
           length (entered evs) = 10 \<and>
           (\<forall>f. count_list (map fst (entered evs)) f = 1))"
proof -
  have a: "(1::nat) \<noteq> nullptr"
    by (simp add: nullptr_def)
  show ?thesis
    using a returning_normal [of demo_host]
      RegisterPlugins_ext_each_entry_once
        [OF a returning_normal(1) returning_normal(2), of demo_host start]
    by blast
qed

text \<open>
  Claim C2. Every registration call passes the registrar looked up under the name of the
  plugin being registered: the trace of a run is ten statements, each a lookup of a name
  \<open>N\<close> followed at once by the call of the entry point whose identifier is \<open>N\<close> with
  \<open>RegisterWithRegistrar\<close> appended, on the handle that lookup returned; the lookups and
  the calls are made on the host, and the handle of a lookup is the one the registry
  returned.
\<close>

theorem RegisterPlugins_name_matches_entry:
  assumes "registry \<noteq> nullptr"
  shows "\<exists>w' evs. RegisterPlugins H registry w = Inr w' \<and> trace w' = trace w @ evs \<and>
           hstate w' = replay H evs (hstate w) \<and>
           faithful H evs (hstate w) \<and>
           statements evs = Some 10"
proof -
  have "statements (script H registry plan (hstate w)) = Some 10"
    using statements_script [OF plan_symbols, of H registry "hstate w"]
    by (simp add: length_plan)
  then show ?thesis
    using RegisterPlugins_script [OF assms, of H w]
      faithful_script [of H registry plan "hstate w"]
    by auto
qed

theorem RegisterPlugins_name_matches_entry_witness:
  "(1::nat) \<noteq> nullptr \<and>
   (\<exists>w' evs. RegisterPlugins demo_host 1 fresh = Inr w' \<and> trace w' = trace fresh @ evs \<and>
           hstate w' = replay demo_host evs (hstate fresh) \<and>
           faithful demo_host evs (hstate fresh) \<and>
           statements evs = Some 10)"
proof -
  have a: "(1::nat) \<noteq> nullptr"
    by (simp add: nullptr_def)
  show ?thesis
    using a RegisterPlugins_name_matches_entry [OF a, of demo_host fresh] by blast
qed

text \<open>
  Claim C3, as stated: every entry point is called with a non-null registrar. The function
  does not look at the handle it gets: on a registry that returns \<open>nullptr\<close>, here the
  object at address 1 of \<open>null_host\<close>, all ten entry points are called with \<open>nullptr\<close>.
\<close>

theorem RegisterPlugins_passes_null_registrar:
  "RegisterPlugins null_host 1 \<lparr>hstate = (), trace = []\<rparr> =
     Inr \<lparr>hstate = (),
          trace =
            [Looked_up 1 ''AutoUpdaterPlugin'' nullptr,
             Invoked AutoUpdaterPluginRegisterWithRegistrar nullptr,
             Looked_up 1 ''BatteryPlusWindowsPlugin'' nullptr,
             Invoked BatteryPlusWindowsPluginRegisterWithRegistrar nullptr,
             Looked_up 1 ''ConnectivityPlusWindowsPlugin'' nullptr,
             Invoked ConnectivityPlusWindowsPluginRegisterWithRegistrar nullptr,
             Looked_up 1 ''DesktopDropPlugin'' nullptr,
             Invoked DesktopDropPluginRegisterWithRegistrar nullptr,
             Looked_up 1 ''FlutterSecureStorageWindowsPlugin'' nullptr,
             Invoked FlutterSecureStorageWindowsPluginRegisterWithRegistrar nullptr,
             Looked_up 1 ''HotkeyManagerWindowsPluginCApi'' nullptr,
             Invoked HotkeyManagerWindowsPluginCApiRegisterWithRegistrar nullptr,
             Looked_up 1 ''ScreenRetrieverPlugin'' nullptr,
             Invoked ScreenRetrieverPluginRegisterWithRegistrar nullptr,
             Looked_up 1 ''SystemTrayPlugin'' nullptr,
             Invoked SystemTrayPluginRegisterWithRegistrar nullptr,
             Looked_up 1 ''UrlLauncherWindows'' nullptr,
             Invoked UrlLauncherWindowsRegisterWithRegistrar nullptr,
             Looked_up 1 ''WindowManagerPlugin'' nullptr,
             Invoked WindowManagerPluginRegisterWithRegistrar nullptr]\<rparr>"
  by (simp add: RegisterPlugins_def call_with_registrar_def get_registrar_def invoke_def
      bind_fault_def null_host_def nullptr_def)

text \<open>
  Claim C3, amended. Every one of the ten entry points is called with exactly the handle
  \<^verbatim>\<open>registry->GetRegistrarForPlugin\<close> returned for its name, null or not, without any
  check: the run is the ten statements below, each entry point after the lookup of its
  own name, the handle passed is the handle that lookup returned, and that is what the
  registry returned. So the handle is non-null whenever the registry returns no null
  handle.
\<close>

theorem RegisterPlugins_registrar_as_returned:
  assumes "registry \<noteq> nullptr"
  shows "\<exists>w' evs. RegisterPlugins H registry w = Inr w' \<and> trace w' = trace w @ evs \<and>
           hstate w' = replay H evs (hstate w) \<and>
           faithful H evs (hstate w) \<and>
           length evs = 20 \<and>
           map (\<lambda>(f, n, r, r'). (f, n)) (registrations evs) =
             [(AutoUpdaterPluginRegisterWithRegistrar, ''AutoUpdaterPlugin''),
              (BatteryPlusWindowsPluginRegisterWithRegistrar, ''BatteryPlusWindowsPlugin''),
              (ConnectivityPlusWindowsPluginRegisterWithRegistrar,
                 ''ConnectivityPlusWindowsPlugin''),
              (DesktopDropPluginRegisterWithRegistrar, ''DesktopDropPlugin''),
              (FlutterSecureStorageWindowsPluginRegisterWithRegistrar,
                 ''FlutterSecureStorageWindowsPlugin''),
              (HotkeyManagerWindowsPluginCApiRegisterWithRegistrar,
                 ''HotkeyManagerWindowsPluginCApi''),
              (ScreenRetrieverPluginRegisterWithRegistrar, ''ScreenRetrieverPlugin''),
              (SystemTrayPluginRegisterWithRegistrar, ''SystemTrayPlugin''),
              (UrlLauncherWindowsRegisterWithRegistrar, ''UrlLauncherWindows''),
              (WindowManagerPluginRegisterWithRegistrar, ''WindowManagerPlugin'')] \<and>
           list_all (\<lambda>(f, n, r, r'). r' = r) (registrations evs) \<and>
           map snd (invoked evs) = map (snd \<circ> snd) (looked_up evs) \<and>
           length (invoked evs) = 10 \<and>
           ((\<forall>n h. fst (GetRegistrarForPlugin H registry n h) \<noteq> nullptr) \<longrightarrow>
              list_all (\<lambda>(f, r). r \<noteq> nullptr) (invoked evs))"
proof -
  let ?evs = "script H registry plan (hstate w)"
  note n = trans [OF registrations_script_names [of H registry plan "hstate w"] plan_def]
  have l: "length ?evs = 20"
    by (simp add: length_script length_plan)
  have nn: "list_all (\<lambda>(f, r). r \<noteq> nullptr) (invoked ?evs)"
    if "\<forall>n h. fst (GetRegistrarForPlugin H registry n h) \<noteq> nullptr"
    using that by (intro nonnull_script) simp
  show ?thesis
    using RegisterPlugins_script [OF assms, of H w] n l nn
      faithful_script [of H registry plan "hstate w"]
      registrations_script_handles [of H registry plan "hstate w"]
      handles_script [of H registry plan "hstate w"]
      length_invoked_plan [of H registry "hstate w"]
    by auto
qed

theorem RegisterPlugins_registrar_as_returned_witness:
  "(1::nat) \<noteq> nullptr \<and>
   (\<forall>n h. fst (GetRegistrarForPlugin demo_host 1 n h) \<noteq> nullptr) \<and>
   (\<exists>w' evs. RegisterPlugins demo_host 1 fresh = Inr w' \<and> trace w' = trace fresh @ evs \<and>
           hstate w' = replay demo_host evs (hstate fresh) \<and>
           faithful demo_host evs (hstate fresh) \<and>
           length evs = 20 \<and>
           length (registrations evs) = 10 \<and>
           list_all (\<lambda>(f, n, r, r'). r' = r) (registrations evs) \<and>
           map snd (invoked evs) = map (snd \<circ> snd) (looked_up evs) \<and>
           length (invoked evs) = 10 \<and>
           list_all (\<lambda>(f, r). r \<noteq> nullptr) (invoked evs))"
proof -
  have a: "(1::nat) \<noteq> nullptr"
    by (simp add: nullptr_def)
  have b: "\<forall>n h. fst (GetRegistrarForPlugin demo_host 1 n h) \<noteq> nullptr"
    by (simp add: demo_host_def nullptr_def)
  obtain w' evs where r: "RegisterPlugins demo_host 1 fresh = Inr w'"
      "trace w' = trace fresh @ evs"
      "hstate w' = replay demo_host evs (hstate fresh)"
      "faithful demo_host evs (hstate fresh)"
      "length evs = 20"
      "length (map (\<lambda>(f, n, r, r'). (f, n)) (registrations evs)) = 10"
      "list_all (\<lambda>(f, n, r, r'). r' = r) (registrations evs)"
      "map snd (invoked evs) = map (snd \<circ> snd) (looked_up evs)"
      "length (invoked evs) = 10"
      "list_all (\<lambda>(f, r). r \<noteq> nullptr) (invoked evs)"
    using RegisterPlugins_registrar_as_returned [OF a, of demo_host fresh] b by auto
  from r(6) have "length (registrations evs) = 10"
    by simp
  with a b r show ?thesis by blast
qed



text \<open>
  Claim C5, as stated: all ten registration calls are made unconditionally, none is
  skipped because an earlier one failed. With a host whose second plugin throws when it
  is registered, the exception leaves the function there and the eight registration
  calls after it are not made.
\<close>

theorem RegisterPlugins_ext_skips_after_throwing_plugin:
  "RegisterPlugins_ext throwing_plugin 1 start =
     Unwound \<lparr>host_state = 3,
              calls =
                [Lookup 1 ''AutoUpdaterPlugin'' (Returns 7),
                 Entry AutoUpdaterPluginRegisterWithRegistrar 7 (Returns ()),
                 Lookup 1 ''BatteryPlusWindowsPlugin'' (Returns 7),
                 Entry BatteryPlusWindowsPluginRegisterWithRegistrar 7 Throws]\<rparr>"
  by (simp add: RegisterPlugins_ext_def call_with_registrar_ext_def invoke_ext_def then_do_def
      throwing_plugin_def start_def nullptr_def)

text \<open>
  Claim C5, amended. \<^verbatim>\<open>RegisterPlugins\<close> has no return value and no error handling
  of its own: it checks no error condition, raises no error and recovers from none. How
  a run ends is decided by the replies of its external calls alone: the first call that
  throws or does not return ends the run at once, every call before it returned, and the
  registration calls made are the first \<open>k\<close> of the ten. When every external call
  returns, the run returns and all ten registration calls are made, whatever the earlier
  calls did to the host.
\<close>

theorem RegisterPlugins_ext_no_error_handling:
  assumes "registry \<noteq> nullptr"
  shows "\<exists>w' evs k. RegisterPlugins_ext H registry w = outcome_of evs w' \<and>
           calls w' = calls w @ evs \<and>
           host_state w' = replay_ext H evs (host_state w) \<and>
           faithful_ext H evs (host_state w) \<and>
           list_all returned (butlast evs) \<and>
           map fst (entered evs) =
             take k
               [AutoUpdaterPluginRegisterWithRegistrar,
                BatteryPlusWindowsPluginRegisterWithRegistrar,
                ConnectivityPlusWindowsPluginRegisterWithRegistrar,
                DesktopDropPluginRegisterWithRegistrar,
                FlutterSecureStorageWindowsPluginRegisterWithRegistrar,
                HotkeyManagerWindowsPluginCApiRegisterWithRegistrar,
                ScreenRetrieverPluginRegisterWithRegistrar,
                SystemTrayPluginRegisterWithRegistrar,
                UrlLauncherWindowsRegisterWithRegistrar,
                WindowManagerPluginRegisterWithRegistrar] \<and>
           (list_all returned evs \<longrightarrow>
              RegisterPlugins_ext H registry w = Completed w' \<and> length (entered evs) = 10) \<and>
           ((\<forall>n h. normal (fst (GetRegistrarForPlugin_ext H registry n h))) \<and>
            (\<forall>f r h. normal (fst (RegisterWithRegistrar_ext H f r h))) \<longrightarrow>
              list_all returned evs)"
proof -
  let ?evs = "script_ext H registry plan (host_state w)"
  let ?w' = "w\<lparr>host_state := replay_ext H ?evs (host_state w), calls := calls w @ ?evs\<rparr>"
  have run: "RegisterPlugins_ext H registry w = outcome_of ?evs ?w'"
    by (rule RegisterPlugins_ext_script [OF assms])
  obtain k where k: "map fst (entered ?evs) = take k (map fst plan)"
    using entered_script_ext_take [of H registry plan "host_state w"] by blast
  have all: "RegisterPlugins_ext H registry w = Completed ?w' \<and> length (entered ?evs) = 10"
    if ret: "list_all returned ?evs"
  proof -
    have "length (map fst (entered ?evs)) = 10"
      using returned_script_ext [OF ret] by (simp add: length_plan)
    then show ?thesis
      using run outcome_of_returned [OF ret, of ?w'] by simp
  qed
  have nor: "list_all returned ?evs"
    if "(\<forall>n h. normal (fst (GetRegistrarForPlugin_ext H registry n h))) \<and>
        (\<forall>f r h. normal (fst (RegisterWithRegistrar_ext H f r h)))"
    using that by (intro normal_script_ext) simp_all
  have "calls ?w' = calls w @ ?evs" "host_state ?w' = replay_ext H ?evs (host_state w)"
    by simp_all
  with run k [unfolded map_fst_plan] all nor
    faithful_ext_script [of H registry plan "host_state w"]
    butlast_script_ext [of H registry plan "host_state w"]
  show ?thesis by blast
qed

theorem RegisterPlugins_ext_no_error_handling_witness:
  "(1::nat) \<noteq> nullptr \<and>
   (\<forall>n h. normal (fst (GetRegistrarForPlugin_ext (returning demo_host) 1 n h))) \<and>
   (\<forall>f r h. normal (fst (RegisterWithRegistrar_ext (returning demo_host) f r h))) \<and>
   (\<exists>w' evs. RegisterPlugins_ext (returning demo_host) 1 start = Completed w' \<and>
           calls w' = calls start @ evs \<and>
           host_state w' = replay_ext (returning demo_host) evs (host_state start) \<and>
           faithful_ext (returning demo_host) evs (host_state start) \<and>
           list_all returned evs \<and> length (entered evs) = 10)"
proof -
  have a: "(1::nat) \<noteq> nullptr"
    by (simp add: nullptr_def)
  show ?thesis
    using a returning_normal [of demo_host]
      RegisterPlugins_ext_no_error_handling [OF a, of "returning demo_host" start]
    by blast
qed

text \<open>
  Claim C6. The only effect of \<^verbatim>\<open>RegisterPlugins\<close> is its external calls: the host
  state afterwards is the state those calls leave when made in order, every handle passed
  to an entry point is the one the registry returned just before, the registry is used
  for the ten lookups and nothing else, and any other state of the world is unchanged.
\<close>

theorem RegisterPlugins_frame:
  assumes "registry \<noteq> nullptr"
  shows "\<exists>w' evs. RegisterPlugins H registry w = Inr w' \<and> trace w' = trace w @ evs \<and>
           hstate w' = replay H evs (hstate w) \<and>
           world.more w' = world.more w \<and>
           faithful H evs (hstate w) \<and>
           map snd (invoked evs) = map (snd \<circ> snd) (looked_up evs) \<and>
           map fst (looked_up evs) = replicate 10 registry \<and>
           length (invoked evs) = 10 \<and> length evs = 20"
proof -
  let ?evs = "script H registry plan (hstate w)"
  have "faithful H ?evs (hstate w)"
    by (rule faithful_script)
  moreover have "map snd (invoked ?evs) = map (snd \<circ> snd) (looked_up ?evs)"
    by (rule handles_script)
  moreover have "map fst (looked_up ?evs) = replicate 10 registry"
    by (simp add: looked_up_script_receivers length_plan)
  moreover have "length ?evs = 20"
    by (simp add: length_script length_plan)
  ultimately show ?thesis
    using RegisterPlugins_script [OF assms, of H w]
      length_invoked_plan [of H registry "hstate w"]
    by auto
qed

theorem RegisterPlugins_frame_witness:
  "(1::nat) \<noteq> nullptr \<and>
   (\<exists>w' evs. RegisterPlugins demo_host 1 app_fresh = Inr w' \<and>
           trace w' = trace app_fresh @ evs \<and>
           hstate w' = replay demo_host evs (hstate app_fresh) \<and>
           world.more w' = world.more app_fresh \<and>
           faithful demo_host evs (hstate app_fresh) \<and>
           map snd (invoked evs) = map (snd \<circ> snd) (looked_up evs) \<and>
           map fst (looked_up evs) = replicate 10 1 \<and>
           length (invoked evs) = 10 \<and> length evs = 20)"
proof -
  have a: "(1::nat) \<noteq> nullptr"
    by (simp add: nullptr_def)
  show ?thesis
    using a RegisterPlugins_frame [OF a, of demo_host app_fresh] by blast
qed




text \<open>
  Claim C9. \<^verbatim>\<open>RegisterPlugins\<close> does not check its argument: on a null registry the
  first statement dereferences it and the behaviour is undefined, whatever the host. The
  run is defined exactly when the registry is not null, and then every dereference the
  function makes is of that same non-null argument.
\<close>

theorem RegisterPlugins_registry_unchecked:
  "RegisterPlugins H nullptr w = Inl NullDereference \<and>
   call_with_registrar H nullptr AutoUpdaterPluginRegisterWithRegistrar
     ''AutoUpdaterPlugin'' w = Inl NullDereference \<and>
   ((\<exists>w'. RegisterPlugins H registry w = Inr w') = (registry \<noteq> nullptr)) \<and>
   (registry \<noteq> nullptr \<longrightarrow>
     (\<exists>w' evs. RegisterPlugins H registry w = Inr w' \<and> trace w' = trace w @ evs \<and>
        map fst (looked_up evs) = replicate 10 registry))"
proof -
  have r: "map fst (looked_up (script H registry plan (hstate w))) = replicate 10 registry"
    by (simp add: looked_up_script_receivers length_plan)
  show ?thesis
  proof (cases "registry = nullptr")
    case True
    then show ?thesis
      by (simp add: RegisterPlugins_null call_with_registrar_null)
  next
    case False
    then show ?thesis
      using RegisterPlugins_script [OF False, of H w] r
      by (simp add: RegisterPlugins_null call_with_registrar_null)
  qed
qed

theorem RegisterPlugins_registry_unchecked_witness:
  "RegisterPlugins demo_host nullptr fresh = Inl NullDereference \<and>
   call_with_registrar demo_host nullptr AutoUpdaterPluginRegisterWithRegistrar
     ''AutoUpdaterPlugin'' fresh = Inl NullDereference \<and>
   (\<exists>w'. RegisterPlugins demo_host 1 fresh = Inr w') \<and>
   (1::nat) \<noteq> nullptr \<and>
   (\<exists>w' evs. RegisterPlugins demo_host 1 fresh = Inr w' \<and> trace w' = trace fresh @ evs \<and>
        map fst (looked_up evs) = replicate 10 1)"
proof -
  have a: "(1::nat) \<noteq> nullptr"
    by (simp add: nullptr_def)
  show ?thesis
    using a RegisterPlugins_registry_unchecked [of demo_host fresh 1] by blast
qed

text \<open>
  Claim C10. The ten names passed to \<^verbatim>\<open>GetRegistrarForPlugin\<close> are pairwise
  distinct: no name is looked up twice, so the handle an entry point receives was
  obtained under a name no other call uses. The lookups are made on the registry and
  their handles are the ones it returned.
\<close>

theorem RegisterPlugins_names_distinct:
  assumes "registry \<noteq> nullptr"
  shows "\<exists>w' evs. RegisterPlugins H registry w = Inr w' \<and> trace w' = trace w @ evs \<and>
           hstate w' = replay H evs (hstate w) \<and>
           faithful H evs (hstate w) \<and>
           length (looked_up evs) = 10 \<and>
           distinct (map (fst \<circ> snd) (looked_up evs)) \<and>
           map snd (invoked evs) = map (snd \<circ> snd) (looked_up evs)"
proof -
  let ?evs = "script H registry plan (hstate w)"
  have "distinct (map (fst \<circ> snd) (looked_up ?evs))"
    unfolding looked_up_script_names by (simp add: plan_def)
  moreover have "map snd (invoked ?evs) = map (snd \<circ> snd) (looked_up ?evs)"
    by (rule handles_script)
  ultimately show ?thesis
    using RegisterPlugins_script [OF assms, of H w]
      length_looked_up_plan [of H registry "hstate w"]
      faithful_script [of H registry plan "hstate w"]
    by auto
qed

theorem RegisterPlugins_names_distinct_witness:
  "(1::nat) \<noteq> nullptr \<and>
   (\<exists>w' evs. RegisterPlugins demo_host 1 fresh = Inr w' \<and> trace w' = trace fresh @ evs \<and>
           hstate w' = replay demo_host evs (hstate fresh) \<and>
           faithful demo_host evs (hstate fresh) \<and>
           length (looked_up evs) = 10 \<and>
           distinct (map (fst \<circ> snd) (looked_up evs)) \<and>
           map snd (invoked evs) = map (snd \<circ> snd) (looked_up evs))"
proof -
  have a: "(1::nat) \<noteq> nullptr"
    by (simp add: nullptr_def)
  show ?thesis
    using a RegisterPlugins_names_distinct [OF a, of demo_host fresh] by blast
qed

end
